theory Spec2Isabelle
  imports Complex_Main
begin

section \<open>Tensors of omnigibson/utils/transform\_utils.py\<close>

text \<open>
  The module computes on float32 tensors. Scalars are embedded as exact reals, so every
  statement below is one of real arithmetic: rounding, overflow and the special values
  of IEEE arithmetic are outside the model, except that an operation whose float result
  would be nan or inf (a division by zero, the square root of a negative number) is
  written out as the outcome \<open>NotFinite\<close> instead of being computed with the total
  operators of HOL.

  Tensors whose shape the docstrings fix are tuples: a position or velocity is a
  \<open>vec3\<close>, a quaternion a \<open>quat\<close> in the module's (x, y, z, w) order, a rotation a
  \<open>mat3\<close> and a homogeneous pose a \<open>mat4\<close>, both as tuples of rows. Tensors whose
  length or rank is only known at run time are lists, wrapped in \<open>tensor\<close> where
  the source's behaviour depends on the rank.
\<close>

datatype error = AssertionError string | RuntimeError | IndexError | ValueError | NotFinite

type_synonym vec3 = "real \<times> real \<times> real"
type_synonym quat = "real \<times> real \<times> real \<times> real"
type_synonym vec4 = "real \<times> real \<times> real \<times> real"
type_synonym mat3 = "vec3 \<times> vec3 \<times> vec3"
type_synonym mat4 = "vec4 \<times> vec4 \<times> vec4 \<times> vec4"

datatype tensor = Scalar real | Vec "real list" | Mat "real list list"

definition and_then :: "error + 'a \<Rightarrow> ('a \<Rightarrow> error + 'b) \<Rightarrow> error + 'b" where
  "and_then r f = (case r of Inl e \<Rightarrow> Inl e | Inr v \<Rightarrow> f v)"

section \<open>Projection matrices\<close>







section \<open>Right-angle check\<close>



section \<open>Euler angles\<close>







section \<open>Exponential moving average\<close>





section \<open>Rotations and poses\<close>

definition eye3 :: mat3 where
  "eye3 = ((1, 0, 0), (0, 1, 0), (0, 0, 1))"

definition eye4 :: mat4 where
  "eye4 = ((1, 0, 0, 0), (0, 1, 0, 0), (0, 0, 1, 0), (0, 0, 0, 1))"

text \<open>
  \<open>quat2mat\<close> on one quaternion. The source reorders it to (w, x, y, z), takes the
  squared norm \<open>n\<close>, scales the rows with \<open>n \<noteq> 0\<close> by \<open>sqrt (2 / n)\<close> and reads
  the rotation off the outer product \<open>q2[i, j] = q_[i] * q_[j]\<close>; a row with
  \<open>n = 0\<close> keeps the identity the result was initialised with.
\<close>

definition quat2mat :: "quat \<Rightarrow> mat3" where
  "quat2mat quaternion =
    (case quaternion of (x, y, z, w) \<Rightarrow>
      let n = w * w + x * x + y * y + z * z
      in if n = 0 then eye3
         else
           let q0 = w * sqrt (2 / n);
               q1 = x * sqrt (2 / n);
               q2 = y * sqrt (2 / n);
               q3 = z * sqrt (2 / n)
           in ((1 - q2 * q2 - q3 * q3, q1 * q2 - q3 * q0, q1 * q3 + q2 * q0),
               (q1 * q2 + q3 * q0, 1 - q1 * q1 - q3 * q3, q2 * q3 - q1 * q0),
               (q1 * q3 - q2 * q0, q2 * q3 + q1 * q0, 1 - q1 * q1 - q2 * q2)))"

text \<open>
  \<open>th.allclose(input, other, atol)\<close> with the default relative tolerance 1e-5,
  entry by entry, against the identity.
\<close>

definition isclose :: "real \<Rightarrow> real \<Rightarrow> real \<Rightarrow> bool" where
  "isclose a b atol = (\<bar>a - b\<bar> \<le> atol + 1 / 10 ^ 5 * \<bar>b\<bar>)"

definition allclose3 :: "mat3 \<Rightarrow> mat3 \<Rightarrow> real \<Rightarrow> bool" where
  "allclose3 A B atol =
    (case A of ((a00, a01, a02), (a10, a11, a12), (a20, a21, a22)) \<Rightarrow>
     case B of ((b00, b01, b02), (b10, b11, b12), (b20, b21, b22)) \<Rightarrow>
       isclose a00 b00 atol \<and> isclose a01 b01 atol \<and> isclose a02 b02 atol
       \<and> isclose a10 b10 atol \<and> isclose a11 b11 atol \<and> isclose a12 b12 atol
       \<and> isclose a20 b20 atol \<and> isclose a21 b21 atol \<and> isclose a22 b22 atol)"

text \<open>The closing \<open>quat / th.norm(quat)\<close> of \<open>mat2quat\<close>; a zero norm gives nan.\<close>

definition div_by_norm :: "quat \<Rightarrow> error + quat" where
  "div_by_norm quat =
    (case quat of (x, y, z, w) \<Rightarrow>
      let norm = sqrt (x * x + y * y + z * z + w * w)
      in if norm = 0 then Inl NotFinite
         else Inr (x / norm, y / norm, z / norm, w / norm))"

text \<open>
  \<open>mat2quat\<close> on one 3x3 matrix. Outside the first branch the square root is taken of
  a number that is negative or zero for some matrices that are no rotations; the
  quotients by \<open>s\<close> are then nan or inf.
\<close>

definition mat2quat :: "mat3 \<Rightarrow> error + quat" where
  "mat2quat rmat =
    (case rmat of ((m00, m01, m02), (m10, m11, m12), (m20, m21, m22)) \<Rightarrow>
      if allclose3 rmat eye3 (1 / 10 ^ 6) then div_by_norm (0, 0, 0, 1)
      else
        let trace = m00 + m11 + m22
        in if trace > 0 then
             let s = 2 * sqrt (trace + 1);
                 w = 25 / 100 * s;
                 x = (m21 - m12) / s;
                 y = (m02 - m20) / s;
                 z = (m10 - m01) / s
             in div_by_norm (x, y, z, w)
           else if m00 > m11 \<and> m00 > m22 then
             if 1 + m00 - m11 - m22 \<le> 0 then Inl NotFinite
             else
               let s = 2 * sqrt (1 + m00 - m11 - m22);
                   w = (m21 - m12) / s;
                   x = 25 / 100 * s;
                   y = (m01 + m10) / s;
                   z = (m02 + m20) / s
               in div_by_norm (x, y, z, w)
           else if m11 > m22 then
             if 1 + m11 - m00 - m22 \<le> 0 then Inl NotFinite
             else
               let s = 2 * sqrt (1 + m11 - m00 - m22);
                   w = (m02 - m20) / s;
                   x = (m01 + m10) / s;
                   y = 25 / 100 * s;
                   z = (m12 + m21) / s
               in div_by_norm (x, y, z, w)
           else
             if 1 + m22 - m00 - m11 \<le> 0 then Inl NotFinite
             else
               let s = 2 * sqrt (1 + m22 - m00 - m11);
                   w = (m10 - m01) / s;
                   x = (m02 + m20) / s;
                   y = (m12 + m21) / s;
                   z = 25 / 100 * s
               in div_by_norm (x, y, z, w))"



text \<open>The matrix products \<open>@\<close> on 3x3 and 4x4 operands.\<close>

definition dot3 :: "vec3 \<Rightarrow> vec3 \<Rightarrow> real" where
  "dot3 u v = (case u of (u0, u1, u2) \<Rightarrow> case v of (v0, v1, v2) \<Rightarrow> u0 * v0 + u1 * v1 + u2 * v2)"

definition dot4 :: "vec4 \<Rightarrow> vec4 \<Rightarrow> real" where
  "dot4 u v =
    (case u of (u0, u1, u2, u3) \<Rightarrow> case v of (v0, v1, v2, v3) \<Rightarrow>
       u0 * v0 + u1 * v1 + u2 * v2 + u3 * v3)"

definition transpose3 :: "mat3 \<Rightarrow> mat3" where
  "transpose3 A =
    (case A of ((a00, a01, a02), (a10, a11, a12), (a20, a21, a22)) \<Rightarrow>
       ((a00, a10, a20), (a01, a11, a21), (a02, a12, a22)))"

definition transpose4 :: "mat4 \<Rightarrow> mat4" where
  "transpose4 A =
    (case A of ((a00, a01, a02, a03), (a10, a11, a12, a13), (a20, a21, a22, a23),
                (a30, a31, a32, a33)) \<Rightarrow>
       ((a00, a10, a20, a30), (a01, a11, a21, a31), (a02, a12, a22, a32),
        (a03, a13, a23, a33)))"

definition matvec3 :: "mat3 \<Rightarrow> vec3 \<Rightarrow> vec3" where
  "matvec3 A v = (case A of (r0, r1, r2) \<Rightarrow> (dot3 r0 v, dot3 r1 v, dot3 r2 v))"

definition matmul3 :: "mat3 \<Rightarrow> mat3 \<Rightarrow> mat3" where
  "matmul3 A B =
    (case transpose3 B of (c0, c1, c2) \<Rightarrow>
     case A of (r0, r1, r2) \<Rightarrow>
       ((dot3 r0 c0, dot3 r0 c1, dot3 r0 c2),
        (dot3 r1 c0, dot3 r1 c1, dot3 r1 c2),
        (dot3 r2 c0, dot3 r2 c1, dot3 r2 c2)))"

definition matmul4 :: "mat4 \<Rightarrow> mat4 \<Rightarrow> mat4" where
  "matmul4 A B =
    (case transpose4 B of (c0, c1, c2, c3) \<Rightarrow>
     case A of (r0, r1, r2, r3) \<Rightarrow>
       ((dot4 r0 c0, dot4 r0 c1, dot4 r0 c2, dot4 r0 c3),
        (dot4 r1 c0, dot4 r1 c1, dot4 r1 c2, dot4 r1 c3),
        (dot4 r2 c0, dot4 r2 c1, dot4 r2 c2, dot4 r2 c3),
        (dot4 r3 c0, dot4 r3 c1, dot4 r3 c2, dot4 r3 c3)))"

definition neg3 :: "mat3 \<Rightarrow> mat3" where
  "neg3 A =
    (case A of ((a00, a01, a02), (a10, a11, a12), (a20, a21, a22)) \<Rightarrow>
       ((- a00, - a01, - a02), (- a10, - a11, - a12), (- a20, - a21, - a22)))"

definition add3 :: "vec3 \<Rightarrow> vec3 \<Rightarrow> vec3" where
  "add3 u v = (case u of (u0, u1, u2) \<Rightarrow> case v of (v0, v1, v2) \<Rightarrow> (u0 + v0, u1 + v1, u2 + v2))"

text \<open>The slices \<open>[:3, :3]\<close> and \<open>[:3, 3]\<close> of a 4x4 matrix.\<close>

definition rot_block :: "mat4 \<Rightarrow> mat3" where
  "rot_block M =
    (case M of ((m00, m01, m02, m03), (m10, m11, m12, m13), (m20, m21, m22, m23), bottom) \<Rightarrow>
       ((m00, m01, m02), (m10, m11, m12), (m20, m21, m22)))"

definition pos_column :: "mat4 \<Rightarrow> vec3" where
  "pos_column M =
    (case M of ((m00, m01, m02, m03), (m10, m11, m12, m13), (m20, m21, m22, m23), bottom) \<Rightarrow>
       (m03, m13, m23))"

text \<open>
  \<open>pose_inv\<close> fills a zero 4x4 matrix: the rotation block with the transpose of the
  input's, the translation column with the product of the negated new block and the
  input's translation, and the corner with 1.
\<close>

definition pose_inv :: "mat4 \<Rightarrow> mat4" where
  "pose_inv pose_mat =
    (case transpose3 (rot_block pose_mat) of ((r00, r01, r02), (r10, r11, r12), (r20, r21, r22)) \<Rightarrow>
     case matvec3 (neg3 (transpose3 (rot_block pose_mat))) (pos_column pose_mat) of (tx, ty, tz) \<Rightarrow>
       ((r00, r01, r02, tx), (r10, r11, r12, ty), (r20, r21, r22, tz), (0, 0, 0, 1)))"


text \<open>
  A valid pose: the columns of the rotation block are orthonormal, its determinant is 1
  and the bottom row is (0, 0, 0, 1).
\<close>

definition det3 :: "mat3 \<Rightarrow> real" where
  "det3 A =
    (case A of ((a00, a01, a02), (a10, a11, a12), (a20, a21, a22)) \<Rightarrow>
       a00 * (a11 * a22 - a12 * a21) - a01 * (a10 * a22 - a12 * a20)
       + a02 * (a10 * a21 - a11 * a20))"

definition valid_rotation :: "mat3 \<Rightarrow> bool" where
  "valid_rotation R = (matmul3 (transpose3 R) R = eye3 \<and> det3 R = 1)"

definition valid_pose :: "mat4 \<Rightarrow> bool" where
  "valid_pose P =
    (case P of (r0, r1, r2, bottom) \<Rightarrow> valid_rotation (rot_block P) \<and> bottom = (0, 0, 0, 1))"

section \<open>Reference notions for the rotation theorems\<close>

text \<open>
  The rotation matrix of a unit quaternion written as a polynomial, the negated
  quaternion (the same rotation), the unit sphere and entrywise distance of matrices.
\<close>

definition rot :: "quat \<Rightarrow> mat3" where
  "rot q =
    (case q of (x, y, z, w) \<Rightarrow>
      ((1 - 2 * (y * y + z * z), 2 * (x * y - z * w), 2 * (x * z + y * w)),
       (2 * (x * y + z * w), 1 - 2 * (x * x + z * z), 2 * (y * z - x * w)),
       (2 * (x * z - y * w), 2 * (y * z + x * w), 1 - 2 * (x * x + y * y))))"

definition neg_quat :: "quat \<Rightarrow> quat" where
  "neg_quat q = (case q of (x, y, z, w) \<Rightarrow> (- x, - y, - z, - w))"

definition unit_quat :: "quat \<Rightarrow> bool" where
  "unit_quat q = (case q of (x, y, z, w) \<Rightarrow> x * x + y * y + z * z + w * w = 1)"

definition within3 :: "real \<Rightarrow> mat3 \<Rightarrow> mat3 \<Rightarrow> bool" where
  "within3 tol A B =
    (case A of ((a00, a01, a02), (a10, a11, a12), (a20, a21, a22)) \<Rightarrow>
     case B of ((b00, b01, b02), (b10, b11, b12), (b20, b21, b22)) \<Rightarrow>
       \<bar>a00 - b00\<bar> \<le> tol \<and> \<bar>a01 - b01\<bar> \<le> tol \<and> \<bar>a02 - b02\<bar> \<le> tol
       \<and> \<bar>a10 - b10\<bar> \<le> tol \<and> \<bar>a11 - b11\<bar> \<le> tol \<and> \<bar>a12 - b12\<bar> \<le> tol
       \<and> \<bar>a20 - b20\<bar> \<le> tol \<and> \<bar>a21 - b21\<bar> \<le> tol \<and> \<bar>a22 - b22\<bar> \<le> tol)"




section \<open>Spherical interpolation\<close>









section \<open>Operations on tensors of run-time rank\<close>

text \<open>
  The operations of torch whose outcome depends on the rank of the operand.
  \<open>Tensor.dot\<close> takes two one-dimensional tensors of equal length and raises a
  RuntimeError on anything else; its zero-dimensional result is returned as a real.
  Indexing \<open>t[i]\<close> selects along the first dimension and raises an IndexError out of
  range or on a zero-dimensional tensor. \<open>th.tensor\<close> of a tuple of tensors converts
  each element to a number, which only a one-element tensor allows. The error classes are
  those of eager execution; run as TorchScript the same failures reach the caller as the
  interpreter's own subclass of RuntimeError.
\<close>

definition vec3_tensor :: "vec3 \<Rightarrow> tensor" where
  "vec3_tensor v = (case v of (a, b, c) \<Rightarrow> Vec [a, b, c])"

definition mat3_tensor :: "mat3 \<Rightarrow> tensor" where
  "mat3_tensor M =
    (case M of ((a00, a01, a02), (a10, a11, a12), (a20, a21, a22)) \<Rightarrow>
       Mat [[a00, a01, a02], [a10, a11, a12], [a20, a21, a22]])"

definition shape :: "tensor \<Rightarrow> nat list" where
  "shape t =
    (case t of Scalar v \<Rightarrow> [] | Vec xs \<Rightarrow> [length xs]
     | Mat rows \<Rightarrow> [length rows, (case rows of [] \<Rightarrow> 0 | r # rs \<Rightarrow> length r)])"

definition tensor_dot :: "tensor \<Rightarrow> tensor \<Rightarrow> error + real" where
  "tensor_dot a b =
    (case a of
       Vec xs \<Rightarrow>
         (case b of
            Vec ys \<Rightarrow> if length xs = length ys then Inr (sum_list (map2 (*) xs ys))
                      else Inl RuntimeError
          | _ \<Rightarrow> Inl RuntimeError)
     | _ \<Rightarrow> Inl RuntimeError)"

definition select :: "tensor \<Rightarrow> nat \<Rightarrow> error + tensor" where
  "select t i =
    (case t of
       Scalar v \<Rightarrow> Inl IndexError
     | Vec xs \<Rightarrow> if i < length xs then Inr (Scalar (xs ! i)) else Inl IndexError
     | Mat rows \<Rightarrow> if i < length rows then Inr (Vec (rows ! i)) else Inl IndexError)"

definition neg_tensor :: "tensor \<Rightarrow> tensor" where
  "neg_tensor t =
    (case t of Scalar v \<Rightarrow> Scalar (- v) | Vec xs \<Rightarrow> Vec (map uminus xs)
     | Mat rows \<Rightarrow> Mat (map (map uminus) rows))"

definition item :: "tensor \<Rightarrow> error + real" where
  "item t =
    (case t of Scalar v \<Rightarrow> Inr v
     | Vec xs \<Rightarrow> (case xs of [v] \<Rightarrow> Inr v | _ \<Rightarrow> Inl ValueError)
     | Mat rows \<Rightarrow> (case rows of [[v]] \<Rightarrow> Inr v | _ \<Rightarrow> Inl ValueError))"

definition flatten :: "tensor \<Rightarrow> real list" where
  "flatten t = (case t of Scalar v \<Rightarrow> [v] | Vec xs \<Rightarrow> xs | Mat rows \<Rightarrow> concat rows)"

primrec chunks_fuel :: "nat \<Rightarrow> nat \<Rightarrow> real list \<Rightarrow> real list list" where
  "chunks_fuel 0 n xs = []"
| "chunks_fuel (Suc k) n xs =
     (if xs = [] then [] else take n xs # chunks_fuel k n (drop n xs))"

definition chunks :: "nat \<Rightarrow> real list \<Rightarrow> real list list" where
  "chunks n xs = chunks_fuel (length xs) n xs"

text \<open>\<open>t.reshape(-1, 4)\<close>: the elements in rows of four, if their number allows it.\<close>

definition reshape_rows4 :: "tensor \<Rightarrow> error + tensor" where
  "reshape_rows4 t =
    (if flatten t = [] \<or> length (flatten t) mod 4 \<noteq> 0 then Inl RuntimeError
     else Inr (Mat (chunks 4 (flatten t))))"

section \<open>Velocity between frames\<close>

definition skew_symmetric_translation :: "vec3 \<Rightarrow> mat3" where
  "skew_symmetric_translation pos_A_in_B =
    (case pos_A_in_B of (p0, p1, p2) \<Rightarrow>
       ((0, - p2, p1),
        (p2, 0, - p0),
        (- p1, p0, 0)))"

text \<open>
  \<open>vel_in_A_to_vel_in_B\<close> slices the pose and then calls \<open>Tensor.dot\<close> on the 3x3
  rotation block; the calls are made in the order in which Python evaluates them.
\<close>

definition vel_in_A_to_vel_in_B :: "vec3 \<Rightarrow> vec3 \<Rightarrow> mat4 \<Rightarrow> error + real \<times> real" where
  "vel_in_A_to_vel_in_B vel_A ang_vel_A pose_A_in_B =
    (let pos_A_in_B = pos_column pose_A_in_B;
         rot_A_in_B = rot_block pose_A_in_B;
         skew_symm = skew_symmetric_translation pos_A_in_B
     in and_then (tensor_dot (mat3_tensor rot_A_in_B) (vec3_tensor vel_A)) (\<lambda>a.
        and_then (tensor_dot (mat3_tensor rot_A_in_B) (vec3_tensor ang_vel_A)) (\<lambda>b.
        and_then (tensor_dot (mat3_tensor skew_symm) (Scalar b)) (\<lambda>c.
        and_then (tensor_dot (mat3_tensor rot_A_in_B) (vec3_tensor ang_vel_A)) (\<lambda>ang_vel_B.
          Inr (a + c, ang_vel_B))))))"

text \<open>
  The transform as the specification and the docstring describe it, with matrix-vector
  products: \<open>v_B = R v_A + skew(t) R w_A\<close> and \<open>w_B = R w_A\<close>.
\<close>

definition cross3 :: "vec3 \<Rightarrow> vec3 \<Rightarrow> vec3" where
  "cross3 u v =
    (case u of (u0, u1, u2) \<Rightarrow> case v of (v0, v1, v2) \<Rightarrow>
       (u1 * v2 - u2 * v1, u2 * v0 - u0 * v2, u0 * v1 - u1 * v0))"

definition velocity_A_to_B_spec :: "vec3 \<Rightarrow> vec3 \<Rightarrow> mat4 \<Rightarrow> vec3 \<times> vec3" where
  "velocity_A_to_B_spec v_A w_A pose_A_in_B =
    (let t = pos_column pose_A_in_B;
         R = rot_block pose_A_in_B
     in (add3 (matvec3 R v_A) (matvec3 (skew_symmetric_translation t) (matvec3 R w_A)),
         matvec3 R w_A))"

section \<open>Orientation error\<close>

text \<open>
  \<open>quat_conjugate\<close> indexes its argument four times along the first dimension and
  builds a tensor from the four results. \<open>quat_mul\<close> asserts equal shapes, multiplies row
  by row and views the result in the shape of its first argument.
\<close>

definition quat_conjugate :: "tensor \<Rightarrow> error + tensor" where
  "quat_conjugate quaternion =
    and_then (select quaternion 0) (\<lambda>q0.
    and_then (select quaternion 1) (\<lambda>q1.
    and_then (select quaternion 2) (\<lambda>q2.
    and_then (select quaternion 3) (\<lambda>q3.
    and_then (item (neg_tensor q0)) (\<lambda>x.
    and_then (item (neg_tensor q1)) (\<lambda>y.
    and_then (item (neg_tensor q2)) (\<lambda>z.
    and_then (item q3) (\<lambda>w.
      Inr (Vec [x, y, z, w])))))))))"

definition quat_mul_row :: "real list \<Rightarrow> real list \<Rightarrow> real list" where
  "quat_mul_row a b =
    (let x1 = a ! 0; y1 = a ! 1; z1 = a ! 2; w1 = a ! 3;
         x2 = b ! 0; y2 = b ! 1; z2 = b ! 2; w2 = b ! 3;
         ww = (z1 + x1) * (x2 + y2);
         yy = (w1 - y1) * (w2 + z2);
         zz = (w1 + y1) * (w2 - z2);
         xx = ww + yy + zz;
         qq = 5 / 10 * (xx + (z1 - x1) * (x2 - y2));
         w = qq - ww + (z1 - y1) * (y2 - z2);
         x = qq - xx + (x1 + w1) * (x2 + w2);
         y = qq - yy + (w1 - x1) * (y2 + z2);
         z = qq - zz + (z1 + y1) * (w2 - x2)
     in [x, y, z, w])"

definition view_like :: "tensor \<Rightarrow> real list \<Rightarrow> tensor" where
  "view_like t flat =
    (case t of Scalar v \<Rightarrow> Vec flat | Vec xs \<Rightarrow> Vec flat
     | Mat rows \<Rightarrow> Mat (chunks (case rows of [] \<Rightarrow> 0 | r # rs \<Rightarrow> length r) flat))"

definition quat_mul :: "tensor \<Rightarrow> tensor \<Rightarrow> error + tensor" where
  "quat_mul a b =
    (if shape a \<noteq> shape b then Inl (AssertionError [])
     else
       and_then (reshape_rows4 a) (\<lambda>a'.
       and_then (reshape_rows4 b) (\<lambda>b'.
         Inr (view_like a (concat (map2 quat_mul_row (chunks 4 (flatten a')) (chunks 4 (flatten b'))))))))"

text \<open>
  \<open>get_orientation_error\<close> reshapes both arguments to rows of four, conjugates the
  reshaped \<open>current\<close>, multiplies, and scales the vector part of each row by the sign of
  its scalar part. The result has the shape of \<open>desired\<close> with the last dimension 3.
\<close>

definition get_orientation_error :: "tensor \<Rightarrow> tensor \<Rightarrow> error + tensor" where
  "get_orientation_error desired current =
    and_then (reshape_rows4 desired) (\<lambda>desired'.
    and_then (reshape_rows4 current) (\<lambda>current'.
    and_then (quat_conjugate current') (\<lambda>cc.
    and_then (quat_mul desired' cc) (\<lambda>q_r.
      case q_r of
        Mat rows \<Rightarrow>
          (let err = map (\<lambda>r. map (\<lambda>v. v * sgn (r ! 3)) (take 3 r)) rows
           in case desired of
                Vec xs \<Rightarrow> if length err = 1 then Inr (Vec (concat err)) else Inl RuntimeError
              | Mat drows \<Rightarrow> if length err = length drows then Inr (Mat err) else Inl RuntimeError
              | Scalar v \<Rightarrow> Inl RuntimeError)
      | _ \<Rightarrow> Inl IndexError))))"

section \<open>Theorems\<close>























text \<open>
  C3. For every valid pose \<open>P\<close>, the product \<open>pose_inv(P) @ P\<close> is the 4x4 identity;
  in exact arithmetic the two are equal, so they agree within every tolerance.
\<close>

theorem pose_inv_left_inverse:
  assumes "valid_pose P"
  shows "matmul4 (pose_inv P) P = eye4"
proof -
  obtain r00 r01 r02 tx r10 r11 r12 ty r20 r21 r22 tz b0 b1 b2 b3 where
    P: "P = ((r00, r01, r02, tx), (r10, r11, r12, ty), (r20, r21, r22, tz), (b0, b1, b2, b3))"
    by (metis prod_cases4)
  from assms have b: "b0 = 0" "b1 = 0" "b2 = 0" "b3 = 1"
    by (simp_all add: P valid_pose_def)
  from assms have o:
    "r00 * r00 + r10 * r10 + r20 * r20 = 1" "r00 * r01 + r10 * r11 + r20 * r21 = 0"
    "r00 * r02 + r10 * r12 + r20 * r22 = 0" "r01 * r00 + r11 * r10 + r21 * r20 = 0"
    "r01 * r01 + r11 * r11 + r21 * r21 = 1" "r01 * r02 + r11 * r12 + r21 * r22 = 0"
    "r02 * r00 + r12 * r10 + r22 * r20 = 0" "r02 * r01 + r12 * r11 + r22 * r21 = 0"
    "r02 * r02 + r12 * r12 + r22 * r22 = 1"
    by (simp_all add: P valid_pose_def valid_rotation_def rot_block_def transpose3_def
        matmul3_def dot3_def eye3_def)
  show ?thesis
    using o
    by (simp add: P b pose_inv_def rot_block_def pos_column_def transpose3_def transpose4_def
        neg3_def matvec3_def matmul4_def dot3_def dot4_def eye4_def algebra_simps)
qed

theorem pose_inv_left_inverse_witness:
  "valid_pose ((0, - 1, 0, 1), (1, 0, 0, 2), (0, 0, 1, 3), (0, 0, 0, 1))
   \<and> pose_inv ((0, - 1, 0, 1), (1, 0, 0, 2), (0, 0, 1, 3), (0, 0, 0, 1))
       = ((0, 1, 0, - 2), (- 1, 0, 0, 1), (0, 0, 1, - 3), (0, 0, 0, 1))
   \<and> matmul4 ((0, 1, 0, - 2), (- 1, 0, 0, 1), (0, 0, 1, - 3), (0, 0, 0, 1))
       ((0, - 1, 0, 1), (1, 0, 0, 2), (0, 0, 1, 3), (0, 0, 0, 1)) = eye4"
proof -
  have v: "valid_pose ((0, - 1, 0, 1), (1, 0, 0, 2), (0, 0, 1, 3), (0, 0, 0, 1))"
    by (simp add: valid_pose_def valid_rotation_def rot_block_def transpose3_def matmul3_def
        dot3_def eye3_def det3_def)
  have i: "pose_inv ((0, - 1, 0, 1), (1, 0, 0, 2), (0, 0, 1, 3), (0, 0, 0, 1))
       = ((0, 1, 0, - 2), (- 1, 0, 0, 1), (0, 0, 1, - 3), (0, 0, 0, 1))"
    by (simp add: pose_inv_def rot_block_def pos_column_def transpose3_def neg3_def
        matvec3_def dot3_def)
  show ?thesis
    using v i pose_inv_left_inverse [OF v] by simp
qed

lemma scaled_product: "0 < n \<Longrightarrow> a * sqrt (2 / n) * (b * sqrt (2 / n)) = 2 * (a * b) / n"
proof -
  assume n: "0 < n"
  have "sqrt (2 / n) * sqrt (2 / n) = 2 / n"
    using n by simp
  then have "a * sqrt (2 / n) * (b * sqrt (2 / n)) = a * b * (2 / n)"
    by (simp add: mult.assoc mult.left_commute)
  then show ?thesis by simp
qed

lemma quat2mat_nonzero:
  assumes "w * w + x * x + y * y + z * z = n" and "n \<noteq> 0"
  shows "quat2mat (x, y, z, w) =
      ((1 - 2 * (y * y) / n - 2 * (z * z) / n, 2 * (x * y) / n - 2 * (z * w) / n,
          2 * (x * z) / n + 2 * (y * w) / n),
       (2 * (x * y) / n + 2 * (z * w) / n, 1 - 2 * (x * x) / n - 2 * (z * z) / n,
          2 * (y * z) / n - 2 * (x * w) / n),
       (2 * (x * z) / n - 2 * (y * w) / n, 2 * (y * z) / n + 2 * (x * w) / n,
          1 - 2 * (x * x) / n - 2 * (y * y) / n))"
proof -
  have "0 \<le> n"
    unfolding assms(1) [symmetric] by simp
  then have "0 < n"
    using assms(2) by simp
  note e = scaled_product [OF this]
  show ?thesis
    unfolding quat2mat_def by (simp only: prod.case Let_def assms if_False e)
qed

lemma quat2mat_unit:
  assumes "unit_quat q"
  shows "quat2mat q = rot q"
proof -
  obtain x y z w where q: "q = (x, y, z, w)"
    by (metis prod_cases4)
  have n: "w * w + x * x + y * y + z * z = 1"
    using assms by (simp add: q unit_quat_def)
  show ?thesis
    unfolding q quat2mat_nonzero [OF n one_neq_zero] by (simp add: rot_def algebra_simps)
qed

lemma rot_neg_quat: "rot (neg_quat q) = rot q"
  by (cases q) (simp add: rot_def neg_quat_def)

lemma unit_neg_quat: "unit_quat (neg_quat q) = unit_quat q"
  by (cases q) (simp add: unit_quat_def neg_quat_def)

lemma div_by_norm_unit: "unit_quat q \<Longrightarrow> div_by_norm q = Inr q"
  by (cases q) (simp add: unit_quat_def div_by_norm_def)

lemma pivot_sqrt: "2 * sqrt (4 * (p * p)) = 4 * \<bar>p\<bar>"
  by (simp add: real_sqrt_mult)


lemma pivot_components:
  fixes p a :: real
  assumes "p \<noteq> 0"
  shows "4 * (p * a) / (4 * \<bar>p\<bar>) = sgn p * a"
    and "4 * (a * p) / (4 * \<bar>p\<bar>) = sgn p * a"
    and "25 / 100 * (4 * \<bar>p\<bar>) = sgn p * p"
  using assms by (simp_all add: sgn_real_def abs_if)

lemma div_by_norm_sgn:
  assumes "unit_quat (x, y, z, w)" and "p \<noteq> 0"
  shows "div_by_norm (sgn p * x, sgn p * y, sgn p * z, sgn p * w) = Inr (x, y, z, w)
    \<or> div_by_norm (sgn p * x, sgn p * y, sgn p * z, sgn p * w) = Inr (neg_quat (x, y, z, w))"
proof (cases "0 < p")
  case True
  then show ?thesis
    using div_by_norm_unit [OF assms(1)] by simp
next
  case False
  then have "sgn p = - 1"
    using assms(2) by (simp add: sgn_real_def)
  then show ?thesis
    using div_by_norm_unit [of "neg_quat (x, y, z, w)"] assms(1)
    by (simp add: unit_neg_quat) (simp add: neg_quat_def)
qed

lemma mat2quat_rot:
  assumes u: "unit_quat q"
  shows "(allclose3 (rot q) eye3 (1 / 10 ^ 6) \<and> mat2quat (rot q) = Inr (0, 0, 0, 1))
     \<or> mat2quat (rot q) = Inr q \<or> mat2quat (rot q) = Inr (neg_quat q)"
proof -
  obtain x y z w where q: "q = (x, y, z, w)"
    by (metis prod_cases4)
  have n: "x * x + y * y + z * z + w * w = 1"
    using u by (simp add: q unit_quat_def)
  have u': "unit_quat (x, y, z, w)"
    using u by (simp add: q)
  define m00 where "m00 = 1 - 2 * (y * y + z * z)"
  define m01 where "m01 = 2 * (x * y - z * w)"
  define m02 where "m02 = 2 * (x * z + y * w)"
  define m10 where "m10 = 2 * (x * y + z * w)"
  define m11 where "m11 = 1 - 2 * (x * x + z * z)"
  define m12 where "m12 = 2 * (y * z - x * w)"
  define m20 where "m20 = 2 * (x * z - y * w)"
  define m21 where "m21 = 2 * (y * z + x * w)"
  define m22 where "m22 = 1 - 2 * (x * x + y * y)"
  note m = m00_def m01_def m02_def m10_def m11_def m12_def m20_def m21_def m22_def
  have R: "rot q = ((m00, m01, m02), (m10, m11, m12), (m20, m21, m22))"
    by (simp add: q rot_def m)
  have d: "m21 - m12 = 4 * (x * w)" "m02 - m20 = 4 * (y * w)" "m10 - m01 = 4 * (z * w)"
    "m01 + m10 = 4 * (x * y)" "m02 + m20 = 4 * (x * z)" "m12 + m21 = 4 * (y * z)"
    by (simp_all add: m)
  have t0: "m00 + m11 + m22 + 1 = 4 * (w * w)"
    using n by (simp add: m algebra_simps)
  have t1: "1 + m00 - m11 - m22 = 4 * (x * x)"
    using n by (simp add: m algebra_simps)
  have t2: "1 + m11 - m00 - m22 = 4 * (y * y)"
    using n by (simp add: m algebra_simps)
  have t3: "1 + m22 - m00 - m11 = 4 * (z * z)"
    using n by (simp add: m algebra_simps)
  show ?thesis
  proof (cases "allclose3 (rot q) eye3 (1 / 10 ^ 6)")
    case True
    then have "mat2quat (rot q) = Inr (0, 0, 0, 1)"
      unfolding R by (simp add: mat2quat_def div_by_norm_def)
    with True show ?thesis by simp
  next
    case nc: False
    show ?thesis
    proof (cases "m00 + m11 + m22 > 0")
      case True
      then have "w * w > 0" using t0 by simp
      then have w: "w \<noteq> 0" by auto
      have "mat2quat (rot q) = div_by_norm ((m21 - m12) / (2 * sqrt (m00 + m11 + m22 + 1)),
          (m02 - m20) / (2 * sqrt (m00 + m11 + m22 + 1)),
          (m10 - m01) / (2 * sqrt (m00 + m11 + m22 + 1)),
          25 / 100 * (2 * sqrt (m00 + m11 + m22 + 1)))"
        using nc True unfolding R mat2quat_def
        by (simp only: prod.case Let_def if_True if_False simp_thms)
      also have "\<dots> = div_by_norm (sgn w * x, sgn w * y, sgn w * z, sgn w * w)"
        by (simp only: d t0 pivot_sqrt pivot_components [OF w])
      finally show ?thesis
        using div_by_norm_sgn [OF u' w] by (simp add: q)
    next
      case nt: False
      show ?thesis
      proof (cases "m00 > m11 \<and> m00 > m22")
        case True
        then have "x * x > y * y" by (simp add: m)
        moreover have "0 \<le> y * y" by simp
        ultimately have xx: "x * x > 0" by linarith
        then have x: "x \<noteq> 0" by auto
        have pos: "\<not> 1 + m00 - m11 - m22 \<le> 0"
          using xx t1 by simp
        have "mat2quat (rot q) = div_by_norm (25 / 100 * (2 * sqrt (1 + m00 - m11 - m22)),
            (m01 + m10) / (2 * sqrt (1 + m00 - m11 - m22)),
            (m02 + m20) / (2 * sqrt (1 + m00 - m11 - m22)),
            (m21 - m12) / (2 * sqrt (1 + m00 - m11 - m22)))"
          using nc nt True pos unfolding R mat2quat_def
          by (simp only: prod.case Let_def if_True if_False simp_thms)
        also have "\<dots> = div_by_norm (sgn x * x, sgn x * y, sgn x * z, sgn x * w)"
          by (simp only: d t1 pivot_sqrt pivot_components [OF x])
        finally show ?thesis
          using div_by_norm_sgn [OF u' x] by (simp add: q)
      next
        case n2: False
        show ?thesis
        proof (cases "m11 > m22")
          case True
          then have "y * y > z * z" by (simp add: m)
          moreover have "0 \<le> z * z" by simp
          ultimately have yy: "y * y > 0" by linarith
          then have y: "y \<noteq> 0" by auto
          have pos: "\<not> 1 + m11 - m00 - m22 \<le> 0"
            using yy t2 by simp
          have "mat2quat (rot q) = div_by_norm ((m01 + m10) / (2 * sqrt (1 + m11 - m00 - m22)),
              25 / 100 * (2 * sqrt (1 + m11 - m00 - m22)),
              (m12 + m21) / (2 * sqrt (1 + m11 - m00 - m22)),
              (m02 - m20) / (2 * sqrt (1 + m11 - m00 - m22)))"
            using nc nt n2 True pos unfolding R mat2quat_def
            by (simp only: prod.case Let_def if_True if_False simp_thms)
          also have "\<dots> = div_by_norm (sgn y * x, sgn y * y, sgn y * z, sgn y * w)"
            by (simp only: d t2 pivot_sqrt pivot_components [OF y])
          finally show ?thesis
            using div_by_norm_sgn [OF u' y] by (simp add: q)
        next
          case n3: False
          have yz: "y * y \<le> z * z" using n3 by (simp add: m)
          have xyz: "x * x \<le> y * y \<or> x * x \<le> z * z" using n2 by (auto simp add: m)
          have ww: "4 * (w * w) \<le> 1" using nt t0 by simp
          have z: "z \<noteq> 0"
          proof
            assume "z = 0"
            then have "y * y \<le> 0" using yz by simp
            then have y0: "y = 0" by (auto simp add: mult_le_0_iff)
            have "x * x \<le> 0" using xyz y0 \<open>z = 0\<close> by auto
            then have x0: "x = 0" by (auto simp add: mult_le_0_iff)
            show False using n ww x0 y0 \<open>z = 0\<close> by simp
          qed
          then have "z * z > 0" by (auto simp add: zero_less_mult_iff)
          then have pos: "\<not> 1 + m22 - m00 - m11 \<le> 0"
            using t3 by simp
          have "mat2quat (rot q) = div_by_norm ((m02 + m20) / (2 * sqrt (1 + m22 - m00 - m11)),
              (m12 + m21) / (2 * sqrt (1 + m22 - m00 - m11)),
              25 / 100 * (2 * sqrt (1 + m22 - m00 - m11)),
              (m10 - m01) / (2 * sqrt (1 + m22 - m00 - m11)))"
            using nc nt n2 n3 pos unfolding R mat2quat_def
            by (simp only: prod.case Let_def if_True if_False simp_thms)
          also have "\<dots> = div_by_norm (sgn z * x, sgn z * y, sgn z * z, sgn z * w)"
            by (simp only: d t3 pivot_sqrt pivot_components [OF z])
          finally show ?thesis
            using div_by_norm_sgn [OF u' z] by (simp add: q)
        qed
      qed
    qed
  qed
qed


lemma small_component:
  fixes p w :: real
  assumes "\<bar>4 * (p * w)\<bar> \<le> 2 / 10 ^ 6" and "1 / 2 \<le> w * w"
  shows "p * p \<le> 1 / 10 ^ 12"
proof -
  have a: "\<bar>p * w\<bar> \<le> 5 / 10 ^ 7"
    using assms(1) by (simp add: abs_mult)
  have "(p * w) * (p * w) = \<bar>p * w\<bar> * \<bar>p * w\<bar>"
    by simp
  also have "\<dots> \<le> (5 / 10 ^ 7) * (5 / 10 ^ 7)"
    using a by (intro mult_mono) simp_all
  finally have b: "(p * w) * (p * w) \<le> 25 / 10 ^ 14"
    by simp
  have "(p * p) * (1 / 2) \<le> (p * p) * (w * w)"
    using assms(2) by (intro mult_left_mono) simp_all
  also have "\<dots> = (p * w) * (p * w)"
    by (simp add: algebra_simps)
  finally have "(p * p) * (1 / 2) \<le> 25 / 10 ^ 14"
    using b by linarith
  then show ?thesis by simp
qed

lemma half_abs:
  fixes a :: real
  shows "\<bar>2 * a\<bar> \<le> 1 / 10 ^ 6 \<Longrightarrow> \<bar>a\<bar> \<le> 1 / 2000000"
  by (simp add: abs_mult)

lemma half_diag:
  fixes s :: real
  shows "\<bar>1 - 2 * s - 1\<bar> \<le> 1 / 10 ^ 6 + 1 / 10 ^ 5 \<Longrightarrow> s \<le> 11 / 2000000"
  by simp

lemma loosen:
  fixes a :: real
  shows "\<bar>a\<bar> \<le> 1 / 10 ^ 6 \<Longrightarrow> \<bar>0 - a\<bar> \<le> 1 / 10 ^ 5"
  by simp

lemma allclose_rot_within:
  assumes u: "unit_quat q" and c: "allclose3 (rot q) eye3 (1 / 10 ^ 6)"
  shows "within3 (1 / 10 ^ 5) eye3 (rot q)"
proof -
  obtain x y z w where q: "q = (x, y, z, w)"
    by (metis prod_cases4)
  have n: "x * x + y * y + z * z + w * w = 1"
    using u by (simp add: q unit_quat_def)
  from c have
    d0: "\<bar>1 - 2 * (y * y + z * z) - 1\<bar> \<le> 1 / 10 ^ 6 + 1 / 10 ^ 5" and
    d1: "\<bar>1 - 2 * (x * x + z * z) - 1\<bar> \<le> 1 / 10 ^ 6 + 1 / 10 ^ 5" and
    d2: "\<bar>1 - 2 * (x * x + y * y) - 1\<bar> \<le> 1 / 10 ^ 6 + 1 / 10 ^ 5" and
    o01: "\<bar>2 * (x * y - z * w)\<bar> \<le> 1 / 10 ^ 6" and
    o02: "\<bar>2 * (x * z + y * w)\<bar> \<le> 1 / 10 ^ 6" and
    o10: "\<bar>2 * (x * y + z * w)\<bar> \<le> 1 / 10 ^ 6" and
    o12: "\<bar>2 * (y * z - x * w)\<bar> \<le> 1 / 10 ^ 6" and
    o20: "\<bar>2 * (x * z - y * w)\<bar> \<le> 1 / 10 ^ 6" and
    o21: "\<bar>2 * (y * z + x * w)\<bar> \<le> 1 / 10 ^ 6"
    by (simp_all add: q rot_def eye3_def allclose3_def isclose_def)
  have sq: "0 \<le> x * x" "0 \<le> y * y" "0 \<le> z * z"
    by simp_all
  have a: "y * y + z * z \<le> 11 / 2000000" "x * x + z * z \<le> 11 / 2000000"
    "x * x + y * y \<le> 11 / 2000000"
    using half_diag [OF d0] half_diag [OF d1] half_diag [OF d2] by blast+
  have ww: "1 / 2 \<le> w * w"
    using a n by linarith
  have o: "\<bar>x * y - z * w\<bar> \<le> 1 / 2000000" "\<bar>x * z + y * w\<bar> \<le> 1 / 2000000"
    "\<bar>x * y + z * w\<bar> \<le> 1 / 2000000" "\<bar>y * z - x * w\<bar> \<le> 1 / 2000000"
    "\<bar>x * z - y * w\<bar> \<le> 1 / 2000000" "\<bar>y * z + x * w\<bar> \<le> 1 / 2000000"
    using half_abs [OF o01] half_abs [OF o02] half_abs [OF o10] half_abs [OF o12]
      half_abs [OF o20] half_abs [OF o21] by blast+
  have "\<bar>x * w\<bar> \<le> 1 / 2000000" "\<bar>y * w\<bar> \<le> 1 / 2000000" "\<bar>z * w\<bar> \<le> 1 / 2000000"
    using o by linarith+
  then have "\<bar>4 * (x * w)\<bar> \<le> 2 / 10 ^ 6" "\<bar>4 * (y * w)\<bar> \<le> 2 / 10 ^ 6"
    "\<bar>4 * (z * w)\<bar> \<le> 2 / 10 ^ 6"
    by simp_all
  then have s: "x * x \<le> 1 / 10 ^ 12" "y * y \<le> 1 / 10 ^ 12" "z * z \<le> 1 / 10 ^ 12"
    using ww by (simp_all only: small_component)
  have e0: "\<bar>1 - (1 - 2 * (y * y + z * z))\<bar> \<le> 1 / 10 ^ 5"
    and e1: "\<bar>1 - (1 - 2 * (x * x + z * z))\<bar> \<le> 1 / 10 ^ 5"
    and e2: "\<bar>1 - (1 - 2 * (x * x + y * y))\<bar> \<le> 1 / 10 ^ 5"
    using s sq by simp_all
  show ?thesis
    using e0 e1 e2 loosen [OF o01] loosen [OF o02] loosen [OF o10] loosen [OF o12]
      loosen [OF o20] loosen [OF o21]
    unfolding q rot_def eye3_def within3_def
    by (simp only: prod.case simp_thms)
qed

lemma within3_refl: "0 \<le> tol \<Longrightarrow> within3 tol A A"
  by (cases A rule: prod_cases3, cases "fst A" rule: prod_cases3, cases "fst (snd A)" rule: prod_cases3,
      cases "snd (snd A)" rule: prod_cases3) (simp add: within3_def)

lemma rot_identity: "rot (0, 0, 0, 1) = eye3"
  by (simp add: rot_def eye3_def)

lemma rot_round_trip:
  assumes u: "unit_quat q"
  shows "\<exists>q'. mat2quat (rot q) = Inr q' \<and> unit_quat q' \<and> within3 (1 / 10 ^ 5) (rot q') (rot q)"
proof -
  consider (ident) "allclose3 (rot q) eye3 (1 / 10 ^ 6)" "mat2quat (rot q) = Inr (0, 0, 0, 1)"
    | (same) "mat2quat (rot q) = Inr q" | (neg) "mat2quat (rot q) = Inr (neg_quat q)"
    using mat2quat_rot [OF u] by blast
  then show ?thesis
  proof cases
    case ident
    have "unit_quat (0, 0, 0, 1)" by (simp add: unit_quat_def)
    moreover have "within3 (1 / 10 ^ 5) (rot (0, 0, 0, 1)) (rot q)"
      using allclose_rot_within [OF u ident(1)] by (simp add: rot_identity)
    ultimately show ?thesis using ident(2) by blast
  next
    case same
    then show ?thesis using u within3_refl [of "1 / 10 ^ 5" "rot q"] by auto
  next
    case neg
    then show ?thesis
      using u within3_refl [of "1 / 10 ^ 5" "rot q"] by (auto simp add: unit_neg_quat rot_neg_quat)
  qed
qed

text \<open>
  C2. For every unit quaternion \<open>q\<close>, \<open>mat2quat\<close> returns a quaternion on
  \<open>quat2mat q\<close>, and converting that quaternion back gives a matrix within 1e-5 of
  \<open>quat2mat q\<close> in every entry.
\<close>

theorem quat2mat_round_trip:
  assumes "unit_quat q"
  shows "\<exists>q'. mat2quat (quat2mat q) = Inr q'
    \<and> within3 (1 / 10 ^ 5) (quat2mat q') (quat2mat q)"
proof -
  obtain q' where "mat2quat (rot q) = Inr q'" "unit_quat q'"
    "within3 (1 / 10 ^ 5) (rot q') (rot q)"
    using rot_round_trip [OF assms] by blast
  then show ?thesis
    using assms by (auto simp add: quat2mat_unit)
qed

theorem quat2mat_round_trip_witness:
  "unit_quat (0, 0, 1, 0) \<and> quat2mat (0, 0, 1, 0) = ((- 1, 0, 0), (0, - 1, 0), (0, 0, 1))
   \<and> mat2quat ((- 1, 0, 0), (0, - 1, 0), (0, 0, 1)) = Inr (0, 0, 1, 0)
   \<and> within3 (1 / 10 ^ 5) (quat2mat (0, 0, 1, 0)) ((- 1, 0, 0), (0, - 1, 0), (0, 0, 1))"
proof -
  have u: "unit_quat (0, 0, 1, 0)"
    by (simp add: unit_quat_def)
  have m: "quat2mat (0, 0, 1, 0) = ((- 1, 0, 0), (0, - 1, 0), (0, 0, 1))"
    by (simp add: quat2mat_def)
  have r: "mat2quat ((- 1, 0, 0), (0, - 1, 0), (0, 0, 1)) = Inr (0, 0, 1, 0)"
    by (simp add: mat2quat_def allclose3_def isclose_def eye3_def div_by_norm_def Let_def)
  show ?thesis
    using u m r quat2mat_round_trip [OF u] by simp
qed














text \<open>
  C4 is not what the code does: for every linear velocity, angular velocity and pose,
  \<open>vel_in_A_to_vel_in_B\<close> raises a RuntimeError at its first \<open>Tensor.dot\<close>, whose left
  operand is the two-dimensional rotation block.
\<close>

theorem vel_in_A_to_vel_in_B_raises:
  "vel_in_A_to_vel_in_B vel_A ang_vel_A pose_A_in_B = Inl RuntimeError"
proof -
  have "tensor_dot (mat3_tensor M) b = Inl RuntimeError" for M b
    by (cases M rule: prod_cases3, cases "fst M" rule: prod_cases3,
        cases "fst (snd M)" rule: prod_cases3, cases "snd (snd M)" rule: prod_cases3)
      (simp add: mat3_tensor_def tensor_dot_def)
  then show ?thesis
    by (simp add: vel_in_A_to_vel_in_B_def and_then_def Let_def)
qed

text \<open>
  C10 is not what the code does: on a single pair of quaternions
  \<open>get_orientation_error\<close> raises an IndexError, because \<open>quat_conjugate\<close> indexes the
  rows of the reshaped one-row batch and there is no row 1.
\<close>

theorem get_orientation_error_raises:
  "get_orientation_error (Vec [dx, dy, dz, dw]) (Vec [cx, cy, cz, cw]) = Inl IndexError"
  by (simp add: get_orientation_error_def reshape_rows4_def flatten_def chunks_def
      quat_conjugate_def select_def and_then_def eval_nat_numeral)

lemma cofactor_entry:
  fixes a b c d e f g h i :: real
  assumes "a * a + d * d + g * g = 1" and "b * a + e * d + h * g = 0"
    and "c * a + f * d + i * g = 0"
    and "a * (e * i - f * h) - b * (d * i - f * g) + c * (d * h - e * g) = 1"
  shows "e * i - f * h = a"
proof -
  have "e * i - f * h = (e * i - f * h) * (a * a + d * d + g * g)
      + (f * g - d * i) * (b * a + e * d + h * g) + (d * h - e * g) * (c * a + f * d + i * g)"
    by (simp only: assms(1-3)) simp
  also have "\<dots> = a * (a * (e * i - f * h) - b * (d * i - f * g) + c * (d * h - e * g))"
    by (simp add: algebra_simps)
  finally show ?thesis
    by (simp only: assms(4) mult_1_right)
qed

lemma rotation_cofactors:
  fixes a b c d e f g h i :: real
  assumes o: "a * a + d * d + g * g = 1" "a * b + d * e + g * h = 0" "a * c + d * f + g * i = 0"
    "b * b + e * e + h * h = 1" "b * c + e * f + h * i = 0" "c * c + f * f + i * i = 1"
    and det: "a * (e * i - f * h) - b * (d * i - f * g) + c * (d * h - e * g) = 1"
  shows "e * i - f * h = a" and "f * g - d * i = b" and "d * h - e * g = c"
    and "h * c - i * b = d" and "i * a - g * c = e" and "g * b - h * a = f"
    and "b * f - c * e = g" and "c * d - a * f = h" and "a * e - b * d = i"
proof -
  show "e * i - f * h = a"
    by (rule cofactor_entry [where a = a and b = b and c = c and d = d and e = e and f = f and g = g and h = h and i = i])
      (use o det in \<open>simp_all add: algebra_simps\<close>)
  show "f * g - d * i = b"
    by (rule cofactor_entry [where a = b and b = c and c = a and d = e and e = f and f = d and g = h and h = i and i = g])
      (use o det in \<open>simp_all add: algebra_simps\<close>)
  show "d * h - e * g = c"
    by (rule cofactor_entry [where a = c and b = a and c = b and d = f and e = d and f = e and g = i and h = g and i = h])
      (use o det in \<open>simp_all add: algebra_simps\<close>)
  show "h * c - i * b = d"
    by (rule cofactor_entry [where a = d and b = e and c = f and d = g and e = h and f = i and g = a and h = b and i = c])
      (use o det in \<open>simp_all add: algebra_simps\<close>)
  show "i * a - g * c = e"
    by (rule cofactor_entry [where a = e and b = f and c = d and d = h and e = i and f = g and g = b and h = c and i = a])
      (use o det in \<open>simp_all add: algebra_simps\<close>)
  show "g * b - h * a = f"
    by (rule cofactor_entry [where a = f and b = d and c = e and d = i and e = g and f = h and g = c and h = a and i = b])
      (use o det in \<open>simp_all add: algebra_simps\<close>)
  show "b * f - c * e = g"
    by (rule cofactor_entry [where a = g and b = h and c = i and d = a and e = b and f = c and g = d and h = e and i = f])
      (use o det in \<open>simp_all add: algebra_simps\<close>)
  show "c * d - a * f = h"
    by (rule cofactor_entry [where a = h and b = i and c = g and d = b and e = c and f = a and g = e and h = f and i = d])
      (use o det in \<open>simp_all add: algebra_simps\<close>)
  show "a * e - b * d = i"
    by (rule cofactor_entry [where a = i and b = g and c = h and d = c and e = a and f = b and g = f and h = d and i = e])
      (use o det in \<open>simp_all add: algebra_simps\<close>)
qed


lemma skew_is_cross: "matvec3 (skew_symmetric_translation t) x = cross3 t x"
  by (cases t rule: prod_cases3, cases x rule: prod_cases3)
    (simp add: skew_symmetric_translation_def matvec3_def dot3_def cross3_def)

lemma matvec3_add3: "matvec3 R (add3 x y) = add3 (matvec3 R x) (matvec3 R y)"
  by (cases R rule: prod_cases3, cases "fst R" rule: prod_cases3,
      cases "fst (snd R)" rule: prod_cases3, cases "snd (snd R)" rule: prod_cases3,
      cases x rule: prod_cases3, cases y rule: prod_cases3)
    (simp add: matvec3_def dot3_def add3_def algebra_simps)

lemma valid_rotation_facts:
  assumes "valid_rotation ((a, b, c), (d, e, f), (g, h, i))"
  shows "a * a + d * d + g * g = 1" "a * b + d * e + g * h = 0" "a * c + d * f + g * i = 0"
    "b * b + e * e + h * h = 1" "b * c + e * f + h * i = 0" "c * c + f * f + i * i = 1"
    "a * (e * i - f * h) - b * (d * i - f * g) + c * (d * h - e * g) = 1"
  using assms
  by (simp_all add: valid_rotation_def matmul3_def transpose3_def dot3_def eye3_def det3_def
      algebra_simps)

lemma rotation_undo:
  assumes "valid_rotation R"
  shows "matvec3 R (matvec3 (transpose3 R) v) = v"
proof -
  obtain a b c d e f g h i where R: "R = ((a, b, c), (d, e, f), (g, h, i))"
    by (metis prod_cases3)
  obtain v0 v1 v2 where v: "v = (v0, v1, v2)"
    by (metis prod_cases3)
  note o = valid_rotation_facts [OF assms [unfolded R]]
  note k = rotation_cofactors [OF o]
  have n0: "a * a + b * b + c * c = 1"
  proof -
    have "a * a + b * b + c * c = a * (e * i - f * h) + b * (f * g - d * i) + c * (d * h - e * g)"
      by (simp only: k)
    also have "\<dots> = 1" using o(7) by (simp add: algebra_simps)
    finally show ?thesis .
  qed
  have n1: "d * d + e * e + f * f = 1"
  proof -
    have "d * d + e * e + f * f = d * (h * c - i * b) + e * (i * a - g * c) + f * (g * b - h * a)"
      by (simp only: k)
    also have "\<dots> = 1" using o(7) by (simp add: algebra_simps)
    finally show ?thesis .
  qed
  have n2: "g * g + h * h + i * i = 1"
  proof -
    have "g * g + h * h + i * i = g * (b * f - c * e) + h * (c * d - a * f) + i * (a * e - b * d)"
      by (simp only: k)
    also have "\<dots> = 1" using o(7) by (simp add: algebra_simps)
    finally show ?thesis .
  qed
  have p01: "a * d + b * e + c * f = 0"
  proof -
    have "a * d + b * e + c * f = (e * i - f * h) * d + (f * g - d * i) * e + (d * h - e * g) * f"
      by (simp only: k)
    also have "\<dots> = 0" by (simp add: algebra_simps)
    finally show ?thesis .
  qed
  have p02: "a * g + b * h + c * i = 0"
  proof -
    have "a * g + b * h + c * i = (e * i - f * h) * g + (f * g - d * i) * h + (d * h - e * g) * i"
      by (simp only: k)
    also have "\<dots> = 0" by (simp add: algebra_simps)
    finally show ?thesis .
  qed
  have p12: "d * g + e * h + f * i = 0"
  proof -
    have "d * g + e * h + f * i = (h * c - i * b) * g + (i * a - g * c) * h + (g * b - h * a) * i"
      by (simp only: k)
    also have "\<dots> = 0" by (simp add: algebra_simps)
    finally show ?thesis .
  qed
  have x0: "a * (a * v0 + d * v1 + g * v2) + b * (b * v0 + e * v1 + h * v2)
      + c * (c * v0 + f * v1 + i * v2) = v0"
  proof -
    have "a * (a * v0 + d * v1 + g * v2) + b * (b * v0 + e * v1 + h * v2)
        + c * (c * v0 + f * v1 + i * v2)
      = v0 * (a * a + b * b + c * c) + v1 * (a * d + b * e + c * f) + v2 * (a * g + b * h + c * i)"
      by (simp add: algebra_simps)
    then show ?thesis by (simp only: n0 p01 p02 mult_1_right mult_zero_right add_0_right)
  qed
  have x1: "d * (a * v0 + d * v1 + g * v2) + e * (b * v0 + e * v1 + h * v2)
      + f * (c * v0 + f * v1 + i * v2) = v1"
  proof -
    have "d * (a * v0 + d * v1 + g * v2) + e * (b * v0 + e * v1 + h * v2)
        + f * (c * v0 + f * v1 + i * v2)
      = v0 * (a * d + b * e + c * f) + v1 * (d * d + e * e + f * f) + v2 * (d * g + e * h + f * i)"
      by (simp add: algebra_simps)
    then show ?thesis by (simp only: n1 p01 p12 mult_1_right mult_zero_right add_0_right add_0_left)
  qed
  have x2: "g * (a * v0 + d * v1 + g * v2) + h * (b * v0 + e * v1 + h * v2)
      + i * (c * v0 + f * v1 + i * v2) = v2"
  proof -
    have "g * (a * v0 + d * v1 + g * v2) + h * (b * v0 + e * v1 + h * v2)
        + i * (c * v0 + f * v1 + i * v2)
      = v0 * (a * g + b * h + c * i) + v1 * (d * g + e * h + f * i) + v2 * (g * g + h * h + i * i)"
      by (simp add: algebra_simps)
    then show ?thesis by (simp only: n2 p02 p12 mult_1_right mult_zero_right add_0_right add_0_left)
  qed
  show ?thesis
    unfolding R v transpose3_def matvec3_def dot3_def
    by (simp only: prod.case x0 x1 x2)
qed

lemma rotation_cross:
  assumes "valid_rotation R"
  shows "matvec3 R (cross3 x y) = cross3 (matvec3 R x) (matvec3 R y)"
proof -
  obtain a b c d e f g h i where R: "R = ((a, b, c), (d, e, f), (g, h, i))"
    by (metis prod_cases3)
  obtain x0 x1 x2 where x: "x = (x0, x1, x2)"
    by (metis prod_cases3)
  obtain y0 y1 y2 where y: "y = (y0, y1, y2)"
    by (metis prod_cases3)
  note o = valid_rotation_facts [OF assms [unfolded R]]
  note k = rotation_cofactors [OF o]
  let ?c0 = "x1 * y2 - x2 * y1" and ?c1 = "x2 * y0 - x0 * y2" and ?c2 = "x0 * y1 - x1 * y0"
  have r0: "(d * x0 + e * x1 + f * x2) * (g * y0 + h * y1 + i * y2)
      - (g * x0 + h * x1 + i * x2) * (d * y0 + e * y1 + f * y2)
      = a * ?c0 + b * ?c1 + c * ?c2"
  proof -
    have "(d * x0 + e * x1 + f * x2) * (g * y0 + h * y1 + i * y2)
        - (g * x0 + h * x1 + i * x2) * (d * y0 + e * y1 + f * y2)
      = (e * i - f * h) * ?c0 + (f * g - d * i) * ?c1 + (d * h - e * g) * ?c2"
      by (simp add: algebra_simps)
    then show ?thesis by (simp only: k)
  qed
  have r1: "(g * x0 + h * x1 + i * x2) * (a * y0 + b * y1 + c * y2)
      - (a * x0 + b * x1 + c * x2) * (g * y0 + h * y1 + i * y2)
      = d * ?c0 + e * ?c1 + f * ?c2"
  proof -
    have "(g * x0 + h * x1 + i * x2) * (a * y0 + b * y1 + c * y2)
        - (a * x0 + b * x1 + c * x2) * (g * y0 + h * y1 + i * y2)
      = (h * c - i * b) * ?c0 + (i * a - g * c) * ?c1 + (g * b - h * a) * ?c2"
      by (simp add: algebra_simps)
    then show ?thesis by (simp only: k)
  qed
  have r2: "(a * x0 + b * x1 + c * x2) * (d * y0 + e * y1 + f * y2)
      - (d * x0 + e * x1 + f * x2) * (a * y0 + b * y1 + c * y2)
      = g * ?c0 + h * ?c1 + i * ?c2"
  proof -
    have "(a * x0 + b * x1 + c * x2) * (d * y0 + e * y1 + f * y2)
        - (d * x0 + e * x1 + f * x2) * (a * y0 + b * y1 + c * y2)
      = (b * f - c * e) * ?c0 + (c * d - a * f) * ?c1 + (a * e - b * d) * ?c2"
      by (simp add: algebra_simps)
    then show ?thesis by (simp only: k)
  qed
  show ?thesis
    unfolding R x y matvec3_def dot3_def cross3_def
    by (simp only: prod.case r0 r1 r2)
qed

lemma rotation_undo_neg:
  assumes "valid_rotation R"
  shows "matvec3 R (matvec3 (neg3 (transpose3 R)) t) = (case t of (t0, t1, t2) \<Rightarrow> (- t0, - t1, - t2))"
proof -
  have n: "matvec3 (neg3 A) (t0, t1, t2) = matvec3 A (- t0, - t1, - t2)" for A t0 t1 t2
    by (cases A rule: prod_cases3, cases "fst A" rule: prod_cases3,
        cases "fst (snd A)" rule: prod_cases3, cases "snd (snd A)" rule: prod_cases3)
      (simp add: neg3_def matvec3_def dot3_def)
  show ?thesis
    by (cases t rule: prod_cases3) (simp add: n rotation_undo [OF assms])
qed

text \<open>
  The transform with matrix-vector products, as the docstring describes it, does round-trip:
  applied with the pose inverted by \<open>pose_inv\<close> and then with the pose itself it gives
  back the velocities it was given.
\<close>

lemma velocity_A_to_B_spec_round_trip:
  assumes "valid_pose P"
  shows "(case velocity_A_to_B_spec v w (pose_inv P) of (v1, w1) \<Rightarrow> velocity_A_to_B_spec v1 w1 P)
    = (v, w)"
proof -
  define R where "R = rot_block P"
  define t where "t = pos_column P"
  have vr: "valid_rotation R"
    using assms by (cases P rule: prod_cases4) (simp add: valid_pose_def R_def)
  have ri: "rot_block (pose_inv P) = transpose3 R"
    and pi: "pos_column (pose_inv P) = matvec3 (neg3 (transpose3 R)) t"
    unfolding R_def t_def pose_inv_def
    by (cases "transpose3 (rot_block P)" rule: prod_cases3,
        cases "fst (transpose3 (rot_block P))" rule: prod_cases3,
        cases "fst (snd (transpose3 (rot_block P)))" rule: prod_cases3,
        cases "snd (snd (transpose3 (rot_block P)))" rule: prod_cases3,
        cases "matvec3 (neg3 (transpose3 (rot_block P))) (pos_column P)" rule: prod_cases3,
        simp add: rot_block_def pos_column_def)+
  obtain t0 t1 t2 where tt: "t = (t0, t1, t2)"
    by (metis prod_cases3)
  obtain v0 v1 v2 where vv: "v = (v0, v1, v2)"
    by (metis prod_cases3)
  obtain w0 w1 w2 where ww: "w = (w0, w1, w2)"
    by (metis prod_cases3)
  have "matvec3 R (add3 (matvec3 (transpose3 R) v)
          (cross3 (matvec3 (neg3 (transpose3 R)) t) (matvec3 (transpose3 R) w)))
      = add3 v (cross3 (- t0, - t1, - t2) w)"
    by (simp add: matvec3_add3 rotation_cross [OF vr] rotation_undo [OF vr]
        rotation_undo_neg [OF vr] tt)
  then have "add3 (matvec3 R (add3 (matvec3 (transpose3 R) v)
          (cross3 (matvec3 (neg3 (transpose3 R)) t) (matvec3 (transpose3 R) w))))
        (cross3 t w) = v"
    by (simp add: tt vv ww add3_def cross3_def)
  then show ?thesis
    by (simp add: velocity_A_to_B_spec_def Let_def ri pi skew_is_cross rotation_undo [OF vr]
        R_def [symmetric] t_def [symmetric])
qed

end
